theory Spec2Isabelle
  imports Main "HOL-Library.Word" "HOL-Library.Sublist"
begin

unbundle bit_operations_syntax

section \<open>Identifier codec (database/ia\_filterdb.py)\<close>

text \<open>
  A Python \<open>bytes\<close> value is a list of 8-bit words. The decoded upstream descriptor
  (the result of \<open>FileId.decode\<close>, which belongs to pyrogram and is not part of the
  repository) is a record of the five attributes that \<open>unpack_new_file_id\<close> reads. The
  four numeric attributes are packed with the format \<open><iiqq\<close>, so they are 32-bit and
  64-bit machine integers.
\<close>

type_synonym byte = "8 word"

record file_descriptor =
  file_type :: "32 word"
  dc_id :: "32 word"
  media_id :: "64 word"
  access_hash :: "64 word"
  file_reference :: "byte list"

subsection \<open>struct.pack, little-endian\<close>

text \<open>
  \<open>le_bytes k w\<close> is the little-endian layout of \<open>w\<close> on \<open>k\<close> bytes: byte \<open>i\<close> holds
  bits \<open>8 * i\<close> to \<open>8 * i + 7\<close>. The format \<open><iiqq\<close> uses standard sizes and inserts
  no padding: 4 + 4 + 8 + 8 bytes.
\<close>

definition le_bytes :: "nat \<Rightarrow> 'a::len word \<Rightarrow> byte list" where
  "le_bytes k w = map (\<lambda>i. ucast (drop_bit (8 * i) w)) [0..<k]"

definition pack_iiqq :: "32 word \<Rightarrow> 32 word \<Rightarrow> 64 word \<Rightarrow> 64 word \<Rightarrow> byte list" where
  "pack_iiqq a b c d = le_bytes 4 a @ le_bytes 4 b @ le_bytes 8 c @ le_bytes 8 d"

subsection \<open>base64.urlsafe\_b64encode and str.rstrip\<close>

definition b64_alphabet :: string where
  "b64_alphabet = ''ABCDEFGHIJKLMNOPQRSTUVWXYZabcdefghijklmnopqrstuvwxyz0123456789-_''"

definition b64_char :: "nat \<Rightarrow> char" where
  "b64_char n = b64_alphabet ! n"

text \<open>
  Three bytes give four 6-bit digits; a last group of one or two bytes is padded with
  \<open>=\<close> to four characters.
\<close>

fun urlsafe_b64encode :: "byte list \<Rightarrow> string" where
  "urlsafe_b64encode (a # b # c # rest) =
     [b64_char (unat a div 4),
      b64_char ((unat a mod 4) * 16 + unat b div 16),
      b64_char ((unat b mod 16) * 4 + unat c div 64),
      b64_char (unat c mod 64)] @ urlsafe_b64encode rest"
| "urlsafe_b64encode [a, b] =
     [b64_char (unat a div 4),
      b64_char ((unat a mod 4) * 16 + unat b div 16),
      b64_char ((unat b mod 16) * 4),
      CHR ''='']"
| "urlsafe_b64encode [a] =
     [b64_char (unat a div 4),
      b64_char ((unat a mod 4) * 16),
      CHR ''='', CHR ''='']"
| "urlsafe_b64encode [] = []"

text \<open>\<open>s.rstrip("=")\<close>: every trailing \<open>=\<close> is removed.\<close>

definition rstrip_eq :: "string \<Rightarrow> string" where
  "rstrip_eq s = rev (dropWhile (\<lambda>c. c = CHR ''='') (rev s))"

subsection \<open>encode\_file\_id, encode\_file\_ref, unpack\_new\_file\_id\<close>

text \<open>
  The loop of \<open>encode_file_id\<close> with its two variables: \<open>r\<close>, the bytes written so far,
  and \<open>n\<close>, the length of the run of zero bytes being read. \<open>bytes([n])\<close> raises
  ValueError when \<open>n\<close> is above 255: that is the result \<open>None\<close>. A run of zeros that
  is still open when the input ends is never written.
\<close>

fun encode_loop :: "byte list \<Rightarrow> byte list \<Rightarrow> nat \<Rightarrow> byte list option" where
  "encode_loop [] r n = Some r"
| "encode_loop (i # s) r n =
     (if i = 0 then encode_loop s r (n + 1)
      else if n \<noteq> 0 then
        (if n < 256 then encode_loop s ((r @ [0, of_nat n]) @ [i]) 0 else None)
      else encode_loop s (r @ [i]) 0)"

definition encode_file_id :: "byte list \<Rightarrow> string option" where
  "encode_file_id s =
     map_option (\<lambda>r. rstrip_eq (urlsafe_b64encode r)) (encode_loop (s @ [22] @ [4]) [] 0)"

definition encode_file_ref :: "byte list \<Rightarrow> string" where
  "encode_file_ref file_ref = rstrip_eq (urlsafe_b64encode file_ref)"

text \<open>
  \<open>unpack_new_file_id\<close>, applied to the decoded descriptor. The result is \<open>None\<close> when
  \<open>encode_file_id\<close> raises.
\<close>

definition unpack_new_file_id :: "file_descriptor \<Rightarrow> (string \<times> string) option" where
  "unpack_new_file_id decoded =
     (case encode_file_id
             (pack_iiqq (file_type decoded) (dc_id decoded) (media_id decoded) (access_hash decoded))
      of None \<Rightarrow> None
       | Some file_id \<Rightarrow> Some (file_id, encode_file_ref (file_reference decoded)))"

subsection \<open>The transform as the specification words it\<close>

text \<open>
  A maximal run of \<open>N\<close> zero bytes is replaced by the two bytes \<open>0x00, N\<close>; every other
  byte passes through.
\<close>

function zero_run_compress :: "byte list \<Rightarrow> byte list" where
  "zero_run_compress [] = []"
| "zero_run_compress (x # xs) =
     (if x = 0
      then [0, of_nat (length (takeWhile (\<lambda>b. b = 0) (x # xs)))]
             @ zero_run_compress (dropWhile (\<lambda>b. b = 0) xs)
      else x # zero_run_compress xs)"
  by pat_completeness auto
termination
  by (relation "measure length") (auto simp: less_Suc_eq_le length_dropWhile_le)

definition spec_storage_key :: "file_descriptor \<Rightarrow> string" where
  "spec_storage_key d =
     rstrip_eq (urlsafe_b64encode (zero_run_compress
       (pack_iiqq (file_type d) (dc_id d) (media_id d) (access_hash d) @ [22, 4])))"

definition spec_reference_token :: "file_descriptor \<Rightarrow> string" where
  "spec_reference_token d = rstrip_eq (urlsafe_b64encode (file_reference d))"

subsection \<open>Decoders\<close>

text \<open>
  Nothing in the repository reverses the encoding. The functions below are the
  inverses of the zero-run compression and of the unpadded base64url encoding; they are
  what makes the encoding injective.
\<close>

fun zero_run_expand :: "byte list \<Rightarrow> byte list" where
  "zero_run_expand [] = []"
| "zero_run_expand [x] = [x]"
| "zero_run_expand (x # c # rest) =
     (if x = 0 then replicate (unat c) 0 @ zero_run_expand rest
      else x # zero_run_expand (c # rest))"

fun b64_nopad :: "byte list \<Rightarrow> string" where
  "b64_nopad (a # b # c # rest) =
     [b64_char (unat a div 4),
      b64_char ((unat a mod 4) * 16 + unat b div 16),
      b64_char ((unat b mod 16) * 4 + unat c div 64),
      b64_char (unat c mod 64)] @ b64_nopad rest"
| "b64_nopad [a, b] =
     [b64_char (unat a div 4),
      b64_char ((unat a mod 4) * 16 + unat b div 16),
      b64_char ((unat b mod 16) * 4)]"
| "b64_nopad [a] =
     [b64_char (unat a div 4),
      b64_char ((unat a mod 4) * 16)]"
| "b64_nopad [] = []"

definition b64_index :: "char \<Rightarrow> nat" where
  "b64_index c = length (takeWhile (\<lambda>x. x \<noteq> c) b64_alphabet)"

fun b64_decode :: "string \<Rightarrow> nat list" where
  "b64_decode (p # q # r # s # rest) =
     [b64_index p * 4 + b64_index q div 16,
      (b64_index q mod 16) * 16 + b64_index r div 4,
      (b64_index r mod 4) * 64 + b64_index s] @ b64_decode rest"
| "b64_decode [p, q, r] =
     [b64_index p * 4 + b64_index q div 16,
      (b64_index q mod 16) * 16 + b64_index r div 4]"
| "b64_decode [p, q] = [b64_index p * 4 + b64_index q div 16]"
| "b64_decode [p] = []"
| "b64_decode [] = []"

section \<open>Media store: save\_file\<close>

text \<open>
  Exceptions are values. \<open>OtherException\<close> stands for any other subclass of Python's
  \<open>Exception\<close> (a driver or network error, for instance); \<open>BaseException\<close> for
  what is not a subclass of \<open>Exception\<close> (a cancellation of the running task, for
  instance), which the handler \<open>except Exception\<close> does not catch.
\<close>

datatype exn = ValidationError | DuplicateKeyError | OtherException string | BaseException string

fun is_Exception :: "exn \<Rightarrow> bool" where
  "is_Exception (BaseException _) = False"
| "is_Exception _ = True"

text \<open>
  The message media object that \<open>save_file\<close> receives. \<open>m_file_id\<close> is the decoded form
  of \<open>media.file_id\<close>; \<open>m_file_name\<close> is \<open>None\<close> for Python's \<open>None\<close>;
  \<open>m_caption\<close> is the HTML of the caption, \<open>None\<close> when the caption is missing or empty.
\<close>

record media =
  m_file_id :: file_descriptor
  m_file_name :: "string option"
  m_file_size :: int
  m_mime_type :: "string option"
  m_caption :: "string option"

text \<open>
  A stored document: the seven fields of \<open>BaseMedia\<close>, and the generation time of the
  document's \<open>id\<close> (read as a number) when that \<open>id\<close> has one.
\<close>

record doc =
  doc_file_id :: string
  doc_file_ref :: string
  doc_file_name :: string
  doc_file_size :: int
  doc_mime_type :: "string option"
  doc_caption :: "string option"
  doc_file_type :: "string option"
  doc_generation_time :: "int option"

text \<open>
  One shard. \<open>docs\<close> holds the documents in insertion order (the natural order);
  \<open>dbstats\<close> is what \<open>db.command("dbstats")['dataSize']\<close> answers, an exception or a
  number of bytes; \<open>commit_fault\<close> is the error the store raises on a commit, if any.
\<close>

record shard =
  docs :: "doc list"
  dbstats :: "exn + int"
  commit_fault :: "exn option"

definition size_limit :: int where
  "size_limit = 480 * 1024 * 1024 * 1024"

text \<open>\<open>str(media.file_name)\<close> and \<open>re.sub(r"(_|\-|\.|\+)", " ", ...)\<close>.\<close>

definition py_str :: "string option \<Rightarrow> string" where
  "py_str x = (case x of None \<Rightarrow> ''None'' | Some s \<Rightarrow> s)"

definition sub_separators :: "string \<Rightarrow> string" where
  "sub_separators s =
     map (\<lambda>c. if c = CHR ''_'' \<or> c = CHR ''-'' \<or> c = CHR ''.'' \<or> c = CHR ''+''
              then CHR '' '' else c) s"

text \<open>\<open>media.mime_type.split('/')[0] if media.mime_type else None\<close>.\<close>

definition major_type :: "string option \<Rightarrow> string option" where
  "major_type mt =
     (case mt of None \<Rightarrow> None
      | Some t \<Rightarrow> if t = [] then None else Some (takeWhile (\<lambda>c. c \<noteq> CHR ''/'') t))"

text \<open>The keyword arguments of \<open>Model(...)\<close>. No \<open>id\<close> is passed.\<close>

definition model_fields :: "string \<Rightarrow> string \<Rightarrow> string \<Rightarrow> media \<Rightarrow> doc" where
  "model_fields file_id file_ref file_name m =
     \<lparr>doc_file_id = file_id, doc_file_ref = file_ref, doc_file_name = file_name,
      doc_file_size = m_file_size m, doc_mime_type = m_mime_type m,
      doc_caption = m_caption m, doc_file_type = major_type (m_mime_type m),
      doc_generation_time = None\<rparr>"

text \<open>
  Modelled from the spec: the backing store's create-with-uniqueness-enforcement
  (section 6), which the repository takes from MongoDB. A commit fails with the store's
  own fault if it has one, is rejected with \<open>DuplicateKeyError\<close> when the shard already
  holds a document with that key, and appends the document otherwise.
\<close>

definition commit :: "shard \<Rightarrow> doc \<Rightarrow> exn + shard" where
  "commit s d =
     (case commit_fault s of
        Some e \<Rightarrow> Inl e
      | None \<Rightarrow>
          if doc_file_id d \<in> set (map doc_file_id (docs s)) then Inl DuplicateKeyError
          else Inr (s\<lparr>docs := docs s @ [d]\<rparr>))"

text \<open>
  The body of the outer \<open>try\<close> for one shard. The schema validation of
  \<open>Model(...)\<close> belongs to umongo: it is the parameter \<open>validate\<close>, which gives the
  exception the constructor raises, if any. The result is an exception that leaves the
  body, or the value returned (\<open>None\<close> when the body ends without \<open>return\<close>) with the
  shard as the body leaves it.
\<close>

definition try_shard ::
  "(doc \<Rightarrow> exn option) \<Rightarrow> doc \<Rightarrow> shard \<Rightarrow> exn + (string option \<times> shard)" where
  "try_shard validate d s =
     (case dbstats s of
        Inl e \<Rightarrow> Inl e
      | Inr used \<Rightarrow>
          if used < size_limit then
            (case validate d of
               Some ValidationError \<Rightarrow> Inr (Some ''err'', s)
             | Some e \<Rightarrow> Inl e
             | None \<Rightarrow>
                 (case commit s d of
                    Inl DuplicateKeyError \<Rightarrow> Inr (Some ''dup'', s)
                  | Inl e \<Rightarrow> Inl e
                  | Inr s' \<Rightarrow> Inr (Some ''suc'', s')))
          else Inr (None, s))"

text \<open>
  The \<open>for\<close> loop over the shards, in the order of the list. \<open>except Exception\<close>
  catches every exception of the body that is an \<open>Exception\<close> and goes on with the
  next shard; any other exception leaves \<open>save_file\<close>.
\<close>

fun save_loop ::
  "(doc \<Rightarrow> exn option) \<Rightarrow> doc \<Rightarrow> shard list \<Rightarrow> exn + (string \<times> shard list)" where
  "save_loop validate d [] = Inr (''err'', [])"
| "save_loop validate d (s # rest) =
     (case try_shard validate d s of
        Inr (Some r, s') \<Rightarrow> Inr (r, s' # rest)
      | Inr (None, s') \<Rightarrow>
          (case save_loop validate d rest of
             Inl e \<Rightarrow> Inl e
           | Inr (r, rest') \<Rightarrow> Inr (r, s' # rest'))
      | Inl e \<Rightarrow>
          if is_Exception e then
            (case save_loop validate d rest of
               Inl e' \<Rightarrow> Inl e'
             | Inr (r, rest') \<Rightarrow> Inr (r, s # rest'))
          else Inl e)"

text \<open>
  \<open>save_file\<close>. The source runs the loop over the three shards \<open>[db1, db2, db3]\<close>;
  the model takes the list of shards as its state and returns it updated.
\<close>

definition save_file ::
  "(doc \<Rightarrow> exn option) \<Rightarrow> media \<Rightarrow> shard list \<Rightarrow> exn + (string \<times> shard list)" where
  "save_file validate m shards =
     (case unpack_new_file_id (m_file_id m) of
        None \<Rightarrow> Inl (OtherException ''ValueError'')
      | Some (file_id, file_ref) \<Rightarrow>
          save_loop validate
            (model_fields file_id file_ref (sub_separators (py_str (m_file_name m))) m) shards)"

text \<open>A shard that the loop passes over, for a given document.\<close>

definition skips :: "(doc \<Rightarrow> exn option) \<Rightarrow> doc \<Rightarrow> shard \<Rightarrow> bool" where
  "skips validate d s =
     (case try_shard validate d s of
        Inl e \<Rightarrow> is_Exception e
      | Inr (None, s') \<Rightarrow> s' = s
      | Inr (Some r, s') \<Rightarrow> False)"

section \<open>Search: get\_search\_results and get\_bad\_files\<close>

text \<open>
  The regular-expression engine (Python's \<open>re\<close> for compiling, the store for matching)
  is outside the repository; it is a parameter. \<open>re_compile p\<close> is \<open>None\<close> when
  \<open>re.compile(p, flags=re.IGNORECASE)\<close> raises \<open>re.error\<close>; \<open>re_search r s\<close> says
  whether the compiled pattern matches somewhere in \<open>s\<close>.
\<close>

record 'r regex_engine =
  re_compile :: "string \<Rightarrow> 'r option"
  re_search :: "'r \<Rightarrow> string \<Rightarrow> bool"

text \<open>
  \<open>str.strip()\<close>, for the ASCII white space characters; \<open>str.lower()\<close>, for the ASCII
  letters; \<open>sub in s\<close> on strings.
\<close>

definition py_isspace :: "char \<Rightarrow> bool" where
  "py_isspace c = (c \<in> set [CHR 0x09, CHR 0x0A, CHR 0x0B, CHR 0x0C, CHR 0x0D,
                              CHR 0x1C, CHR 0x1D, CHR 0x1E, CHR 0x1F, CHR 0x20])"

definition strip :: "string \<Rightarrow> string" where
  "strip s = rev (dropWhile py_isspace (rev (dropWhile py_isspace s)))"

definition lower_char :: "char \<Rightarrow> char" where
  "lower_char c =
     (case map_of (zip ''ABCDEFGHIJKLMNOPQRSTUVWXYZ'' ''abcdefghijklmnopqrstuvwxyz'') c of
        Some l \<Rightarrow> l
      | None \<Rightarrow> c)"

definition lower :: "string \<Rightarrow> string" where
  "lower s = map lower_char s"

fun py_in :: "string \<Rightarrow> string \<Rightarrow> bool" where
  "py_in sub [] = (sub = [])"
| "py_in sub (c # cs) = (prefix sub (c # cs) \<or> py_in sub cs)"

text \<open>
  The pattern built from the stripped query. \<open>boundary\<close> is the raw string
  \<open>(\b|[\.\+\-_])\<close> and \<open>gap\<close> is \<open>.*[\s\.\+\-_]\<close>; the backslash is the
  character \<open>0x5C\<close>.
\<close>

definition boundary :: string where
  "boundary = ''('' @ [CHR 0x5C] @ ''b|['' @ [CHR 0x5C] @ ''.'' @ [CHR 0x5C] @ ''+''
              @ [CHR 0x5C] @ ''-_])''"

definition gap :: string where
  "gap = ''.*['' @ [CHR 0x5C] @ ''s'' @ [CHR 0x5C] @ ''.'' @ [CHR 0x5C] @ ''+''
         @ [CHR 0x5C] @ ''-_]''"

definition raw_pattern :: "string \<Rightarrow> string" where
  "raw_pattern query =
     (if query = [] then ''.''
      else if CHR '' '' \<notin> set query then boundary @ query @ boundary
      else concat (map (\<lambda>c. if c = CHR '' '' then gap else [c]) query))"

text \<open>
  The value stored under \<open>'file_name'\<close> in \<open>filter_q\<close>: a compiled pattern, or a plain
  string (the assignment \<open>regex = query\<close> of the handler for \<open>re.error\<close>). The filter
  is evaluated by the store, MongoDB: a compiled pattern selects the documents whose field
  it matches; a plain string selects the documents whose field is equal to it.
\<close>

datatype 'r name_filter = Regex 'r | Plain string

definition selects :: "'r regex_engine \<Rightarrow> 'r name_filter \<Rightarrow> doc \<Rightarrow> bool" where
  "selects E flt d =
     (case flt of
        Regex r \<Rightarrow> re_search E r (doc_file_name d)
      | Plain s \<Rightarrow> doc_file_name d = s)"

text \<open>
  \<open>Model.find(filter_q).sort('$natural', -1)\<close> followed by \<open>to_list(length=n)\<close>: the
  selected documents, newest insertion first, at most \<open>n\<close> of them; and
  \<open>Model.count_documents(filter_q)\<close>.
\<close>

definition find_newest :: "(doc \<Rightarrow> bool) \<Rightarrow> shard \<Rightarrow> nat \<Rightarrow> doc list" where
  "find_newest sel s n = take n (rev (filter sel (docs s)))"

definition count_documents :: "(doc \<Rightarrow> bool) \<Rightarrow> shard \<Rightarrow> nat" where
  "count_documents sel s = length (filter sel (docs s))"

text \<open>
  The post-filter \<open>if lang: model_results = [f for f in model_results if lang in
  f.file_name.lower()]\<close>. An empty string is false in Python.
\<close>

definition lang_filter :: "string option \<Rightarrow> doc list \<Rightarrow> doc list" where
  "lang_filter lang model_results =
     (case lang of
        None \<Rightarrow> model_results
      | Some l \<Rightarrow>
          if l = [] then model_results
          else filter (\<lambda>f. py_in l (lower (doc_file_name f))) model_results)"

text \<open>
  The loop of \<open>get_search_results\<close> over the shards, with its two variables
  \<open>results\<close> and \<open>total_results\<close>.
\<close>

fun search_loop ::
  "(doc \<Rightarrow> bool) \<Rightarrow> nat \<Rightarrow> string option \<Rightarrow> shard list \<Rightarrow> doc list \<Rightarrow> nat
   \<Rightarrow> doc list \<times> nat" where
  "search_loop sel max_results lang [] results total_results = (results, total_results)"
| "search_loop sel max_results lang (s # rest) results total_results =
     search_loop sel max_results lang rest
       (results @ lang_filter lang (find_newest sel s (max_results * 3)))
       (total_results + count_documents sel s)"

text \<open>
  \<open>results.sort(key=lambda x: getattr(x.id, "generation_time", 0), reverse=True)\<close>.
  Python's sort is stable, also with \<open>reverse=True\<close>: the list is reversed, sorted in
  ascending order and reversed again, so that records with equal keys keep their order.
\<close>

definition generation_key :: "doc \<Rightarrow> int" where
  "generation_key x = (case doc_generation_time x of None \<Rightarrow> 0 | Some t \<Rightarrow> t)"

definition sort_reverse :: "('a \<Rightarrow> int) \<Rightarrow> 'a list \<Rightarrow> 'a list" where
  "sort_reverse key xs = rev (sort_key key (rev xs))"

text \<open>
  \<open>get_search_results\<close>. \<open>max_results\<close> and \<open>offset\<close> are natural numbers, as the
  callers pass them; the empty string returned for \<open>next_offset\<close> when there is no
  further page is \<open>None\<close>.
\<close>

definition name_filter_of :: "'r regex_engine \<Rightarrow> string \<Rightarrow> 'r name_filter" where
  "name_filter_of E query =
     (case re_compile E (raw_pattern query) of
        Some regex \<Rightarrow> Regex regex
      | None \<Rightarrow> Plain query)"

definition get_search_results ::
  "'r regex_engine \<Rightarrow> string \<Rightarrow> nat \<Rightarrow> nat \<Rightarrow> string option \<Rightarrow> shard list
   \<Rightarrow> doc list \<times> nat option \<times> nat" where
  "get_search_results E query max_results offset lang shards =
     (let query = strip query;
          sel = selects E (name_filter_of E query);
          (results, total_results) = search_loop sel max_results lang shards [] 0;
          results = sort_reverse generation_key results;
          files = take max_results (drop offset results);
          next_offset = offset + max_results
      in (files, if next_offset \<ge> total_results then None else Some next_offset,
          total_results))"

text \<open>
  \<open>get_bad_files\<close>: the same pattern, an optional equality on \<open>file_type\<close> (the argument
  \<open>ftype\<close>; a false value, \<open>None\<close> or the empty string, adds nothing), and a loop that asks each shard for
  as many documents as the running total.
\<close>

definition type_filter :: "string option \<Rightarrow> doc \<Rightarrow> bool" where
  "type_filter ftype d =
     (case ftype of
        None \<Rightarrow> True
      | Some t \<Rightarrow> if t = [] then True else doc_file_type d = Some t)"

fun bad_files_loop :: "(doc \<Rightarrow> bool) \<Rightarrow> shard list \<Rightarrow> doc list \<Rightarrow> nat \<Rightarrow> doc list \<times> nat" where
  "bad_files_loop sel [] results total_results = (results, total_results)"
| "bad_files_loop sel (s # rest) results total_results =
     bad_files_loop sel rest
       (results @ find_newest sel s (total_results + count_documents sel s))
       (total_results + count_documents sel s)"

definition get_bad_files ::
  "'r regex_engine \<Rightarrow> string \<Rightarrow> string option \<Rightarrow> shard list \<Rightarrow> doc list \<times> nat" where
  "get_bad_files E query ftype shards =
     (let query = strip query
      in case re_compile E (raw_pattern query) of
           None \<Rightarrow> ([], 0)
         | Some regex \<Rightarrow>
             bad_files_loop (\<lambda>d. re_search E regex (doc_file_name d) \<and> type_filter ftype d)
               shards [] 0)"

subsection \<open>An engine for worked examples\<close>

text \<open>
  A regular-expression engine that knows one pattern, the single dot, which matches a
  string holding a character other than the line feed, and rejects every other pattern.
  On the two patterns that the worked examples below build it does what Python's \<open>re\<close>
  does: \<open>.\<close> (from the empty query) compiles, and the pattern built from the query
  \<open>(\<close>, which opens a group that is never closed, does not compile.
\<close>

datatype dot_regex = Dot

definition dot_engine :: "dot_regex regex_engine" where
  "dot_engine =
     \<lparr>re_compile = (\<lambda>p. if p = ''.'' then Some Dot else None),
      re_search = (\<lambda>r s. \<exists>c \<in> set s. c \<noteq> CHR 0x0A)\<rparr>"

subsection \<open>Values for worked examples\<close>

text \<open>
  A descriptor, a media object built on it, the document that \<open>save_file\<close> makes of
  it, and a shard with no document, a given usage and no fault.
\<close>

definition example_descriptor :: file_descriptor where
  "example_descriptor =
     \<lparr>file_type = 5, dc_id = 4, media_id = 0, access_hash = 256, file_reference = [1, 0]\<rparr>"

definition example_media :: media where
  "example_media =
     \<lparr>m_file_id = example_descriptor, m_file_name = Some ''The_Matrix.1999.mkv'',
      m_file_size = 700, m_mime_type = Some ''video/x-matroska'', m_caption = None\<rparr>"

definition example_doc :: doc where
  "example_doc =
     \<lparr>doc_file_id = ''BQADBAAMAQAGFgQ'', doc_file_ref = ''AQA'',
      doc_file_name = ''The Matrix 1999 mkv'', doc_file_size = 700,
      doc_mime_type = Some ''video/x-matroska'', doc_caption = None,
      doc_file_type = Some ''video'', doc_generation_time = None\<rparr>"

text \<open>
  A second media object, another file with another storage key, and the document that
  \<open>save_file\<close> makes of it.
\<close>

definition second_media :: media where
  "second_media =
     \<lparr>m_file_id = \<lparr>file_type = 5, dc_id = 4, media_id = 1, access_hash = 0,
                    file_reference = [1, 0]\<rparr>,
      m_file_name = Some ''The_Matrix.Reloaded.mkv'',
      m_file_size = 900, m_mime_type = Some ''video/x-matroska'', m_caption = None\<rparr>"

definition second_doc :: doc where
  "second_doc =
     \<lparr>doc_file_id = ''BQADBAADAQAPFgQ'', doc_file_ref = ''AQA'',
      doc_file_name = ''The Matrix Reloaded mkv'', doc_file_size = 900,
      doc_mime_type = Some ''video/x-matroska'', doc_caption = None,
      doc_file_type = Some ''video'', doc_generation_time = None\<rparr>"

definition idle_shard :: "int \<Rightarrow> shard" where
  "idle_shard used = \<lparr>docs = [], dbstats = Inr used, commit_fault = None\<rparr>"

text \<open>
  A document known by its name only, a shard that holds given documents, and three
  shards of which the first holds four documents, inserted in the order a, b, c, d.
\<close>

definition named_doc :: "string \<Rightarrow> doc" where
  "named_doc n =
     \<lparr>doc_file_id = n, doc_file_ref = [], doc_file_name = n, doc_file_size = 1,
      doc_mime_type = None, doc_caption = None, doc_file_type = None,
      doc_generation_time = None\<rparr>"

definition shard_of :: "doc list \<Rightarrow> shard" where
  "shard_of ds = \<lparr>docs = ds, dbstats = Inr 0, commit_fault = None\<rparr>"

definition four_files :: "shard list" where
  "four_files =
     [shard_of [named_doc ''a'', named_doc ''b'', named_doc ''c'', named_doc ''d''],
      shard_of [], shard_of []]"

section \<open>Properties of the codec\<close>

subsection \<open>The loop writes the compressed form\<close>

lemma zero_run_compress_run:
  "x \<noteq> 0 \<Longrightarrow>
   zero_run_compress (replicate (Suc n) 0 @ x # xs) = [0, of_nat (Suc n), x] @ zero_run_compress xs"
  by (simp add: takeWhile_tail dropWhile_append)

text \<open>
  The loop invariant: with \<open>n\<close> zeros pending and \<open>xs\<close> still to read, the loop ends
  with \<open>r\<close> followed by the compressed form of the pending zeros and \<open>xs\<close>, as long as
  the input ends with a non-zero byte and no run can reach 256.
\<close>

lemma encode_loop_compress:
  "n + length xs < 256 \<Longrightarrow> (xs = [] \<longrightarrow> n = 0) \<Longrightarrow> (xs \<noteq> [] \<longrightarrow> last xs \<noteq> 0)
   \<Longrightarrow> encode_loop xs r n = Some (r @ zero_run_compress (replicate n 0 @ xs))"
proof (induction xs arbitrary: r n)
  case Nil
  then show ?case by simp
next
  case (Cons i s)
  show ?case
  proof (cases "i = 0")
    case True
    with Cons.prems have s: "s \<noteq> []" "last s \<noteq> 0" by (auto split: if_splits)
    have "encode_loop s r (Suc n) = Some (r @ zero_run_compress (replicate (Suc n) 0 @ s))"
      using Cons.prems s by (intro Cons.IH) auto
    then show ?thesis using True by (simp add: replicate_app_Cons_same)
  next
    case False
    have ih: "encode_loop s r' 0 = Some (r' @ zero_run_compress s)" for r'
      using Cons.IH[of 0 r'] Cons.prems by (cases "s = []") auto
    show ?thesis
    proof (cases n)
      case 0
      then show ?thesis using False ih by simp
    next
      case (Suc m)
      then show ?thesis
        using False ih Cons.prems zero_run_compress_run[OF False, of m s] by simp
    qed
  qed
qed

lemma encode_file_id_compress:
  "length s < 254 \<Longrightarrow>
   encode_file_id s = Some (rstrip_eq (urlsafe_b64encode (zero_run_compress (s @ [22, 4]))))"
  using encode_loop_compress[of 0 "s @ [22, 4]" "[]"] by (simp add: encode_file_id_def)

lemma length_le_bytes: "length (le_bytes k w) = k"
  by (simp add: le_bytes_def)

lemma length_pack_iiqq: "length (pack_iiqq a b c d) = 24"
  by (simp add: pack_iiqq_def length_le_bytes)

text \<open>
  Claim C3. For every decoded descriptor, \<open>unpack_new_file_id\<close> returns (it does not
  raise), its first component is the storage key of the specification: the four fields
  packed little-endian as int32, int32, int64, int64, followed by the two trailer bytes,
  every run of \<open>N\<close> zero bytes replaced by \<open>0x00, N\<close>, base64url-encoded with the
  padding stripped; and its second component is the base64url encoding of the raw
  reference blob with the padding stripped.
\<close>

theorem unpack_new_file_id_meets_spec:
  "unpack_new_file_id d = Some (spec_storage_key d, spec_reference_token d)"
proof -
  have "encode_file_id (pack_iiqq (file_type d) (dc_id d) (media_id d) (access_hash d))
      = Some (spec_storage_key d)"
    unfolding spec_storage_key_def
    by (rule encode_file_id_compress) (simp add: length_pack_iiqq)
  then show ?thesis
    by (simp add: unpack_new_file_id_def spec_reference_token_def encode_file_ref_def)
qed

subsection \<open>The encoding can be reversed\<close>

lemma run_is_replicate:
  "takeWhile (\<lambda>b. b = (0::byte)) xs = replicate (length (takeWhile (\<lambda>b. b = 0) xs)) 0"
  by (induction xs) auto

lemma expand_nonzero: "x \<noteq> 0 \<Longrightarrow> zero_run_expand (x # ys) = x # zero_run_expand ys"
  by (cases ys) auto

lemma expand_compress: "length xs < 256 \<Longrightarrow> zero_run_expand (zero_run_compress xs) = xs"
proof (induction xs rule: zero_run_compress.induct)
  case 1
  then show ?case by simp
next
  case (2 x xs)
  show ?case
  proof (cases "x = 0")
    case True
    let ?run = "takeWhile (\<lambda>b. b = 0) xs"
    have len: "length ?run \<le> length xs" by (rule length_takeWhile_le)
    have ih: "zero_run_expand (zero_run_compress (dropWhile (\<lambda>b. b = 0) xs)) = dropWhile (\<lambda>b. b = 0) xs"
      using 2(1)[OF True] 2(3) length_dropWhile_le[of "\<lambda>b. b = 0" xs] by simp
    have u: "unat (of_nat (Suc (length ?run)) :: byte) = Suc (length ?run)"
      using len 2(3) by (simp add: unat_of_nat del: of_nat_Suc)
    have "zero_run_expand (zero_run_compress (x # xs))
        = replicate (Suc (length ?run)) 0 @ dropWhile (\<lambda>b. b = 0) xs"
      using True ih u by (simp del: of_nat_Suc)
    also have "\<dots> = 0 # (?run @ dropWhile (\<lambda>b. b = 0) xs)"
      using run_is_replicate[of xs] by simp
    finally show ?thesis using True by simp
  next
    case False
    then show ?thesis using 2(2) 2(3) by (simp add: expand_nonzero)
  qed
qed

lemma b64_alphabet_distinct: "distinct b64_alphabet"
  by (simp add: b64_alphabet_def)

lemma b64_alphabet_length: "length b64_alphabet = 64"
  by (simp add: b64_alphabet_def)

lemma b64_alphabet_no_pad: "CHR ''='' \<notin> set b64_alphabet"
  by (simp add: b64_alphabet_def)

lemma index_nth:
  "distinct xs \<Longrightarrow> n < length xs \<Longrightarrow> length (takeWhile (\<lambda>x. x \<noteq> xs ! n) xs) = n"
proof (induction xs arbitrary: n)
  case Nil
  then show ?case by simp
next
  case (Cons a xs)
  then show ?case by (cases n) auto
qed

lemma b64_index_char: "n < 64 \<Longrightarrow> b64_index (b64_char n) = n"
  unfolding b64_index_def b64_char_def
  by (rule index_nth[OF b64_alphabet_distinct]) (simp add: b64_alphabet_length)

lemma b64_char_no_pad: "n < 64 \<Longrightarrow> b64_char n \<noteq> CHR ''=''"
  unfolding b64_char_def using b64_alphabet_no_pad b64_alphabet_length nth_mem[of n b64_alphabet]
  by metis

lemma rstrip_eq_append:
  "g \<noteq> [] \<Longrightarrow> last g \<noteq> CHR ''='' \<Longrightarrow> rstrip_eq (g @ t) = g @ rstrip_eq t"
  by (cases g rule: rev_cases) (auto simp: rstrip_eq_def dropWhile_append)

lemma unat_byte_bound: "unat (a :: byte) < 256"
  using unsigned_less[of a, where 'a = nat] by simp

lemma sextet_bounds:
  fixes a b c :: nat
  assumes "a < 256" "b < 256" "c < 256"
  shows "a div 4 < 64" "(a mod 4) * 16 + b div 16 < 64" "(b mod 16) * 4 + c div 64 < 64"
    "c mod 64 < 64" "(a mod 4) * 16 < 64" "(b mod 16) * 4 < 64"
proof -
  have 1: "a mod 4 < 4" "b mod 16 < 16" by simp_all
  have 2: "a div 4 < 64" "b div 16 < 16" "c div 64 < 4"
    using assms by (simp_all add: less_mult_imp_div_less)
  show "a div 4 < 64" by (rule 2)
  show "(a mod 4) * 16 + b div 16 < 64" using 1 2 by linarith
  show "(b mod 16) * 4 + c div 64 < 64" using 1 2 by linarith
  show "c mod 64 < 64" by simp
  show "(a mod 4) * 16 < 64" using 1 by linarith
  show "(b mod 16) * 4 < 64" using 1 by linarith
qed

lemma sextet_join:
  fixes a b c :: nat
  assumes "b < 256" "c < 256"
  shows "a div 4 * 4 + ((a mod 4) * 16 + b div 16) div 16 = a"
    "(((a mod 4) * 16 + b div 16) mod 16) * 16 + ((b mod 16) * 4 + c div 64) div 4 = b"
    "(((b mod 16) * 4 + c div 64) mod 4) * 64 + c mod 64 = c"
    "(((a mod 4) * 16 + b div 16) mod 16) * 16 + ((b mod 16) * 4) div 4 = b"
    "a div 4 * 4 + ((a mod 4) * 16) div 16 = a"
proof -
  have b16: "b div 16 < 16" and c64: "c div 64 < 4"
    using assms by (simp_all add: less_mult_imp_div_less)
  have hi: "((a mod 4) * 16 + b div 16) div 16 = a mod 4"
    and lo: "((a mod 4) * 16 + b div 16) mod 16 = b div 16"
    using b16 by simp_all
  have hi': "((b mod 16) * 4 + c div 64) div 4 = b mod 16"
    and lo': "((b mod 16) * 4 + c div 64) mod 4 = c div 64"
    using c64 by simp_all
  show "a div 4 * 4 + ((a mod 4) * 16 + b div 16) div 16 = a"
    unfolding hi by simp
  show "(((a mod 4) * 16 + b div 16) mod 16) * 16 + ((b mod 16) * 4 + c div 64) div 4 = b"
    unfolding lo hi' by simp
  show "(((b mod 16) * 4 + c div 64) mod 4) * 64 + c mod 64 = c"
    unfolding lo' by simp
  show "(((a mod 4) * 16 + b div 16) mod 16) * 16 + ((b mod 16) * 4) div 4 = b"
    unfolding lo by simp
  show "a div 4 * 4 + ((a mod 4) * 16) div 16 = a"
    by simp
qed

lemma rstrip_b64: "rstrip_eq (urlsafe_b64encode xs) = b64_nopad xs"
proof (induction xs rule: urlsafe_b64encode.induct)
  case (1 a b c rest)
  let ?g = "[b64_char (unat a div 4), b64_char ((unat a mod 4) * 16 + unat b div 16),
      b64_char ((unat b mod 16) * 4 + unat c div 64), b64_char (unat c mod 64)]"
  have "b64_char (unat c mod 64) \<noteq> CHR ''=''"
    by (rule b64_char_no_pad) simp
  then have "rstrip_eq (?g @ urlsafe_b64encode rest) = ?g @ rstrip_eq (urlsafe_b64encode rest)"
    by (intro rstrip_eq_append) simp_all
  then show ?case using 1 by simp
next
  case (2 a b)
  let ?g = "[b64_char (unat a div 4), b64_char ((unat a mod 4) * 16 + unat b div 16),
      b64_char ((unat b mod 16) * 4)]"
  have "b64_char ((unat b mod 16) * 4) \<noteq> CHR ''=''"
    by (rule b64_char_no_pad) (rule sextet_bounds(6)[OF unat_byte_bound unat_byte_bound unat_byte_bound])
  then have "rstrip_eq (?g @ [CHR ''='']) = ?g @ rstrip_eq [CHR ''='']"
    by (intro rstrip_eq_append) simp_all
  then show ?case by (simp add: rstrip_eq_def)
next
  case (3 a)
  let ?g = "[b64_char (unat a div 4), b64_char ((unat a mod 4) * 16)]"
  have "b64_char ((unat a mod 4) * 16) \<noteq> CHR ''=''"
    by (rule b64_char_no_pad) (rule sextet_bounds(5)[OF unat_byte_bound unat_byte_bound unat_byte_bound])
  then have "rstrip_eq (?g @ [CHR ''='', CHR ''='']) = ?g @ rstrip_eq [CHR ''='', CHR ''='']"
    by (intro rstrip_eq_append) simp_all
  then show ?case by (simp add: rstrip_eq_def)
next
  case 4
  then show ?case by (simp add: rstrip_eq_def)
qed

lemma b64_decode_nopad: "b64_decode (b64_nopad xs) = map unat xs"
proof (induction xs rule: b64_nopad.induct)
  case (1 a b c rest)
  note bd = sextet_bounds[OF unat_byte_bound[of a] unat_byte_bound[of b] unat_byte_bound[of c]]
  note jn = sextet_join[OF unat_byte_bound[of b] unat_byte_bound[of c]]
  have i: "b64_index (b64_char (unat a div 4)) = unat a div 4"
    "b64_index (b64_char ((unat a mod 4) * 16 + unat b div 16)) = (unat a mod 4) * 16 + unat b div 16"
    "b64_index (b64_char ((unat b mod 16) * 4 + unat c div 64)) = (unat b mod 16) * 4 + unat c div 64"
    "b64_index (b64_char (unat c mod 64)) = unat c mod 64"
    using bd by (simp_all only: b64_index_char)
  have "b64_decode (b64_nopad (a # b # c # rest))
      = [unat a div 4 * 4 + ((unat a mod 4) * 16 + unat b div 16) div 16,
         (((unat a mod 4) * 16 + unat b div 16) mod 16) * 16 + ((unat b mod 16) * 4 + unat c div 64) div 4,
         (((unat b mod 16) * 4 + unat c div 64) mod 4) * 64 + unat c mod 64] @ b64_decode (b64_nopad rest)"
    by (simp only: b64_nopad.simps b64_decode.simps append_Cons append_Nil i)
  also have "\<dots> = [unat a, unat b, unat c] @ map unat rest"
    by (simp only: jn 1)
  finally show ?case by simp
next
  case (2 a b)
  note bd = sextet_bounds[OF unat_byte_bound[of a] unat_byte_bound[of b] unat_byte_bound[of b]]
  note jn = sextet_join[OF unat_byte_bound[of b] unat_byte_bound[of b]]
  have i: "b64_index (b64_char (unat a div 4)) = unat a div 4"
    "b64_index (b64_char ((unat a mod 4) * 16 + unat b div 16)) = (unat a mod 4) * 16 + unat b div 16"
    "b64_index (b64_char ((unat b mod 16) * 4)) = (unat b mod 16) * 4"
    using bd by (simp_all only: b64_index_char)
  have "b64_decode (b64_nopad [a, b])
      = [unat a div 4 * 4 + ((unat a mod 4) * 16 + unat b div 16) div 16,
         (((unat a mod 4) * 16 + unat b div 16) mod 16) * 16 + ((unat b mod 16) * 4) div 4]"
    by (simp only: b64_nopad.simps b64_decode.simps i)
  also have "\<dots> = [unat a, unat b]"
    by (simp only: jn)
  finally show ?case by simp
next
  case (3 a)
  note bd = sextet_bounds[OF unat_byte_bound[of a] unat_byte_bound[of a] unat_byte_bound[of a]]
  note jn = sextet_join[OF unat_byte_bound[of a] unat_byte_bound[of a]]
  have i: "b64_index (b64_char (unat a div 4)) = unat a div 4"
    "b64_index (b64_char ((unat a mod 4) * 16)) = (unat a mod 4) * 16"
    using bd by (simp_all only: b64_index_char)
  have "b64_decode (b64_nopad [a])
      = [unat a div 4 * 4 + ((unat a mod 4) * 16) div 16]"
    by (simp only: b64_nopad.simps b64_decode.simps i)
  also have "\<dots> = [unat a]"
    by (simp only: jn)
  finally show ?case by simp
next
  case 4
  then show ?case by simp
qed

lemma b64_strip_inj:
  assumes "rstrip_eq (urlsafe_b64encode xs) = rstrip_eq (urlsafe_b64encode ys)"
  shows "xs = ys"
proof -
  from assms have "b64_nopad xs = b64_nopad ys" by (simp only: rstrip_b64)
  then have "b64_decode (b64_nopad xs) = b64_decode (b64_nopad ys)" by simp
  then have "map unat xs = map unat ys" by (simp only: b64_decode_nopad)
  then show ?thesis by (simp add: inj_map_eq_map[OF inj_onI])
qed

lemma compress_inj:
  assumes "length xs < 256" "length ys < 256" "zero_run_compress xs = zero_run_compress ys"
  shows "xs = ys"
proof -
  have "zero_run_expand (zero_run_compress xs) = zero_run_expand (zero_run_compress ys)"
    using assms(3) by simp
  then show ?thesis using assms(1,2) by (simp only: expand_compress)
qed

lemma le_bytes_inj:
  fixes w v :: "'a::len word"
  assumes len: "LENGTH('a) \<le> 8 * k" and eq: "le_bytes k w = le_bytes k v"
  shows "w = v"
proof (rule bit_word_eqI)
  fix n assume n: "n < LENGTH('a)"
  then have i: "n div 8 < k" using len by auto
  have "(ucast (drop_bit (8 * (n div 8)) w) :: byte) = ucast (drop_bit (8 * (n div 8)) v)"
    using eq i by (auto simp: le_bytes_def)
  then have "bit (ucast (drop_bit (8 * (n div 8)) w) :: byte) (n mod 8)
           = bit (ucast (drop_bit (8 * (n div 8)) v) :: byte) (n mod 8)"
    by simp
  then show "bit w n = bit v n"
    by (simp add: bit_ucast_iff bit_drop_bit_eq)
qed

lemma pack_iiqq_inj:
  assumes "pack_iiqq a b c d = pack_iiqq a' b' c' d'"
  shows "a = a' \<and> b = b' \<and> c = c' \<and> d = d'"
proof -
  from assms have "le_bytes 4 a = le_bytes 4 a'" "le_bytes 4 b = le_bytes 4 b'"
    "le_bytes 8 c = le_bytes 8 c'" "le_bytes 8 d = le_bytes 8 d'"
    by (simp_all add: pack_iiqq_def length_le_bytes)
  then show ?thesis
    using le_bytes_inj[of 4 a a'] le_bytes_inj[of 4 b b'] le_bytes_inj[of 8 c c'] le_bytes_inj[of 8 d d']
    by simp
qed

lemma storage_key_of_unpack:
  assumes "unpack_new_file_id d = Some (k, r)"
  shows "k = rstrip_eq (urlsafe_b64encode (zero_run_compress
         (pack_iiqq (file_type d) (dc_id d) (media_id d) (access_hash d) @ [22, 4])))"
proof -
  let ?p = "pack_iiqq (file_type d) (dc_id d) (media_id d) (access_hash d)"
  have "length ?p < 254" by (simp only: length_pack_iiqq)
  then have "encode_file_id ?p = Some (rstrip_eq (urlsafe_b64encode (zero_run_compress (?p @ [22, 4]))))"
    by (rule encode_file_id_compress)
  then show ?thesis using assms unfolding unpack_new_file_id_def by simp
qed

text \<open>
  Claim C4. Two descriptors that differ in at least one of the four fields
  \<open>file_type\<close>, \<open>dc_id\<close>, \<open>media_id\<close>, \<open>access_hash\<close> never get the same
  storage key from \<open>unpack_new_file_id\<close>: packing, zero-run compression and base64url
  encoding with the padding stripped are injective on the 24 packed bytes.
\<close>

theorem storage_key_collision_free:
  assumes "unpack_new_file_id d = Some (k, r)" and "unpack_new_file_id d' = Some (k', r')"
    and "(file_type d, dc_id d, media_id d, access_hash d)
         \<noteq> (file_type d', dc_id d', media_id d', access_hash d')"
  shows "k \<noteq> k'"
proof
  assume "k = k'"
  let ?p = "pack_iiqq (file_type d) (dc_id d) (media_id d) (access_hash d)"
  let ?p' = "pack_iiqq (file_type d') (dc_id d') (media_id d') (access_hash d')"
  have len: "length (?p @ [22, 4]) < 256" "length (?p' @ [22, 4]) < 256"
    by (simp_all only: length_append length_pack_iiqq list.size)
  from \<open>k = k'\<close> storage_key_of_unpack[OF assms(1)] storage_key_of_unpack[OF assms(2)]
  have "rstrip_eq (urlsafe_b64encode (zero_run_compress (?p @ [22, 4])))
      = rstrip_eq (urlsafe_b64encode (zero_run_compress (?p' @ [22, 4])))"
    by (simp only:)
  then have "zero_run_compress (?p @ [22, 4]) = zero_run_compress (?p' @ [22, 4])"
    by (rule b64_strip_inj)
  then have "?p @ [22, 4] = ?p' @ [22, 4]"
    by (rule compress_inj[OF len])
  then have "?p = ?p'" by (simp only: append_same_eq)
  then have "file_type d = file_type d' \<and> dc_id d = dc_id d' \<and> media_id d = media_id d'
      \<and> access_hash d = access_hash d'"
    by (rule pack_iiqq_inj)
  then show False using assms(3) by simp
qed

theorem storage_key_collision_free_witness:
  "unpack_new_file_id \<lparr>file_type = 5, dc_id = 4, media_id = 0, access_hash = 256, file_reference = [1, 0]\<rparr>
     = Some (''BQADBAAMAQAGFgQ'', ''AQA'')
   \<and> unpack_new_file_id \<lparr>file_type = 5, dc_id = 4, media_id = 1, access_hash = 0, file_reference = [1, 0]\<rparr>
     = Some (''BQADBAADAQAPFgQ'', ''AQA'')
   \<and> ''BQADBAAMAQAGFgQ'' \<noteq> ''BQADBAADAQAPFgQ''"
proof -
  let ?d = "\<lparr>file_type = 5, dc_id = 4, media_id = 0, access_hash = 256, file_reference = [1, 0]\<rparr>"
  let ?d' = "\<lparr>file_type = 5, dc_id = 4, media_id = 1, access_hash = 0, file_reference = [1, 0]\<rparr>"
  have a: "unpack_new_file_id ?d = Some (''BQADBAAMAQAGFgQ'', ''AQA'')"
    by (simp add: unpack_new_file_id_def encode_file_id_def encode_file_ref_def pack_iiqq_def
        le_bytes_def upt_rec drop_bit_eq_div rstrip_eq_def b64_char_def b64_alphabet_def)
  have b: "unpack_new_file_id ?d' = Some (''BQADBAADAQAPFgQ'', ''AQA'')"
    by (simp add: unpack_new_file_id_def encode_file_id_def encode_file_ref_def pack_iiqq_def
        le_bytes_def upt_rec drop_bit_eq_div rstrip_eq_def b64_char_def b64_alphabet_def)
  have c: "(file_type ?d, dc_id ?d, media_id ?d, access_hash ?d)
         \<noteq> (file_type ?d', dc_id ?d', media_id ?d', access_hash ?d')" by simp
  show ?thesis using storage_key_collision_free[OF a b c] a b by simp
qed

section \<open>Properties of save\_file\<close>

lemma save_loop_skip_prefix:
  "\<forall>p \<in> set pre. skips validate d p \<Longrightarrow>
   save_loop validate d (pre @ rest) =
     (case save_loop validate d rest of
        Inl e \<Rightarrow> Inl e
      | Inr (r, rest') \<Rightarrow> Inr (r, pre @ rest'))"
proof (induction pre)
  case Nil
  then show ?case by (simp split: sum.splits)
next
  case (Cons p pre)
  then have ih: "save_loop validate d (pre @ rest) =
     (case save_loop validate d rest of Inl e \<Rightarrow> Inl e | Inr (r, rest') \<Rightarrow> Inr (r, pre @ rest'))"
    by simp
  from Cons.prems have "skips validate d p" by simp
  then show ?case
    by (auto simp: skips_def ih split: sum.splits option.splits prod.splits)
qed

lemma try_shard_accepts:
  "dbstats s = Inr used \<Longrightarrow> used < size_limit \<Longrightarrow> validate d = None \<Longrightarrow>
   commit_fault s = None \<Longrightarrow> doc_file_id d \<notin> set (map doc_file_id (docs s)) \<Longrightarrow>
   try_shard validate d s = Inr (Some ''suc'', s\<lparr>docs := docs s @ [d]\<rparr>)"
  by (simp add: try_shard_def commit_def)

lemma try_shard_duplicate:
  "dbstats s = Inr used \<Longrightarrow> used < size_limit \<Longrightarrow> validate d = None \<Longrightarrow>
   commit_fault s = None \<Longrightarrow> doc_file_id d \<in> set (map doc_file_id (docs s)) \<Longrightarrow>
   try_shard validate d s = Inr (Some ''dup'', s)"
  by (simp add: try_shard_def commit_def)

lemma try_shard_full:
  "dbstats s = Inr used \<Longrightarrow> size_limit \<le> used \<Longrightarrow> try_shard validate d s = Inr (None, s)"
  by (simp add: try_shard_def)






lemma unpack_example:
  "unpack_new_file_id example_descriptor = Some (''BQADBAAMAQAGFgQ'', ''AQA'')"
  by (simp add: example_descriptor_def unpack_new_file_id_def encode_file_id_def
      encode_file_ref_def pack_iiqq_def le_bytes_def upt_rec drop_bit_eq_div rstrip_eq_def
      b64_char_def b64_alphabet_def)

lemma unpack_example_again:
  "unpack_new_file_id (example_descriptor\<lparr>file_reference := [2]\<rparr>) = Some (''BQADBAAMAQAGFgQ'', ''Ag'')"
  by (simp add: example_descriptor_def unpack_new_file_id_def encode_file_id_def
      encode_file_ref_def pack_iiqq_def le_bytes_def upt_rec drop_bit_eq_div rstrip_eq_def
      b64_char_def b64_alphabet_def)

lemma example_fields:
  "model_fields ''BQADBAAMAQAGFgQ'' ''AQA'' (sub_separators (py_str (m_file_name example_media)))
     example_media = example_doc"
  by (simp add: model_fields_def example_media_def example_doc_def sub_separators_def py_str_def
      major_type_def)

lemma save_file_example:
  "save_file validate example_media shards = save_loop validate example_doc shards"
proof -
  have "unpack_new_file_id (m_file_id example_media) = Some (''BQADBAAMAQAGFgQ'', ''AQA'')"
    using unpack_example by (simp add: example_media_def)
  then show ?thesis by (simp add: save_file_def example_fields)
qed

subsection \<open>Routing by capacity\<close>

text \<open>
  Claim C1, as amended. A shard is passed over when its usage is at or above the ceiling
  of 480 GiB: if the first of three shards reports a usage at or above the ceiling and the
  second one a usage below it, a valid record whose key the second shard does not hold yet
  is saved in the second shard, and the first and third shards are left as they were.
\<close>

theorem shard_at_ceiling_is_skipped:
  assumes "unpack_new_file_id (m_file_id m) = Some (k, r)"
    and "d = model_fields k r (sub_separators (py_str (m_file_name m))) m"
    and "dbstats s1 = Inr u1" and "size_limit \<le> u1"
    and "dbstats s2 = Inr u2" and "u2 < size_limit"
    and "validate d = None" and "commit_fault s2 = None"
    and "k \<notin> set (map doc_file_id (docs s2))"
  shows "save_file validate m [s1, s2, s3] = Inr (''suc'', [s1, s2\<lparr>docs := docs s2 @ [d]\<rparr>, s3])"
proof -
  have key: "doc_file_id d = k" using assms(2) by (simp add: model_fields_def)
  have 1: "try_shard validate d s1 = Inr (None, s1)"
    using assms(3,4) by (rule try_shard_full)
  have 2: "try_shard validate d s2 = Inr (Some ''suc'', s2\<lparr>docs := docs s2 @ [d]\<rparr>)"
    using assms(5,6,7,8) assms(9) key by (intro try_shard_accepts) simp_all
  show ?thesis
    using assms(1) assms(2)[symmetric] 1 2 by (simp add: save_file_def)
qed

theorem shard_at_ceiling_is_skipped_witness:
  "save_file (\<lambda>d. None) example_media [idle_shard size_limit, idle_shard 0, idle_shard 0]
   = Inr (''suc'', [idle_shard size_limit, (idle_shard 0)\<lparr>docs := [example_doc]\<rparr>, idle_shard 0])"
proof -
  have a: "unpack_new_file_id (m_file_id example_media) = Some (''BQADBAAMAQAGFgQ'', ''AQA'')"
    using unpack_example by (simp add: example_media_def)
  have b: "example_doc = model_fields ''BQADBAAMAQAGFgQ'' ''AQA''
             (sub_separators (py_str (m_file_name example_media))) example_media"
    by (simp add: example_fields)
  have c: "dbstats (idle_shard size_limit) = Inr size_limit" "size_limit \<le> size_limit"
    "dbstats (idle_shard 0) = Inr 0" "0 < size_limit" "commit_fault (idle_shard 0) = None"
    "''BQADBAAMAQAGFgQ'' \<notin> set (map doc_file_id (docs (idle_shard 0)))"
    by (simp_all add: idle_shard_def size_limit_def)
  have v: "(\<lambda>d::doc. None::exn option) example_doc = None" by simp
  show ?thesis
    using shard_at_ceiling_is_skipped[OF a b c(1,2,3,4) v c(5,6), of "idle_shard 0"]
    by (simp add: idle_shard_def)
qed

text \<open>
  With the first shard one byte below the ceiling, as claim C1 words it, the test
  \<open>usage < 480 * 1024 * 1024 * 1024\<close> succeeds: the record is saved in the first
  shard and the second shard stays empty.
\<close>

theorem below_ceiling_counterexample:
  "save_file (\<lambda>d. None) example_media [idle_shard (size_limit - 1), idle_shard 0, idle_shard 0]
   = Inr (''suc'', [(idle_shard (size_limit - 1))\<lparr>docs := [example_doc]\<rparr>,
                    idle_shard 0, idle_shard 0])"
  by (simp add: save_file_example try_shard_def commit_def idle_shard_def size_limit_def)

subsection \<open>Exceptions\<close>






subsection \<open>Duplicates\<close>

text \<open>
  Claim C9. Two calls of \<open>save_file\<close> with descriptors that encode to the same storage
  key \<open>k\<close>, both routed to the same shard \<open>s\<close> (every shard before it is passed
  over, and \<open>s\<close> reports a usage below the ceiling at both calls), with records that
  pass the validation, a store without fault and a key that is new to \<open>s\<close>: the first
  call returns \<open>suc\<close> and appends the record, the second returns \<open>dup\<close> and leaves
  every shard as it was, and \<open>s\<close> then holds exactly one record with the key \<open>k\<close>.
\<close>

theorem duplicate_idempotence:
  assumes "unpack_new_file_id (m_file_id m1) = Some (k, r1)"
    and "unpack_new_file_id (m_file_id m2) = Some (k, r2)"
    and "d1 = model_fields k r1 (sub_separators (py_str (m_file_name m1))) m1"
    and "d2 = model_fields k r2 (sub_separators (py_str (m_file_name m2))) m2"
    and "validate d1 = None" and "validate d2 = None"
    and "\<forall>p \<in> set pre. skips validate d1 p \<and> skips validate d2 p"
    and "dbstats s = Inr u" and "u < size_limit" and "commit_fault s = None"
    and "k \<notin> set (map doc_file_id (docs s))"
    and "s' = s\<lparr>docs := docs s @ [d1], dbstats := Inr u'\<rparr>" and "u' < size_limit"
  shows "save_file validate m1 (pre @ s # post)
           = Inr (''suc'', pre @ s\<lparr>docs := docs s @ [d1]\<rparr> # post)
       \<and> save_file validate m2 (pre @ s' # post) = Inr (''dup'', pre @ s' # post)
       \<and> length (filter (\<lambda>x. doc_file_id x = k) (docs s')) = 1"
proof -
  have key: "doc_file_id d1 = k" "doc_file_id d2 = k"
    using assms(3,4) by (simp_all add: model_fields_def)
  have p1: "\<forall>p \<in> set pre. skips validate d1 p" and p2: "\<forall>p \<in> set pre. skips validate d2 p"
    using assms(7) by simp_all
  have t1: "try_shard validate d1 s = Inr (Some ''suc'', s\<lparr>docs := docs s @ [d1]\<rparr>)"
    using assms(8,9,5,10) assms(11) key by (intro try_shard_accepts) simp_all
  have t2: "try_shard validate d2 s' = Inr (Some ''dup'', s')"
    using assms(12,13,6,10) key by (intro try_shard_duplicate[where used = u']) simp_all
  have first: "save_file validate m1 (pre @ s # post)
           = Inr (''suc'', pre @ s\<lparr>docs := docs s @ [d1]\<rparr> # post)"
    using assms(1) assms(3)[symmetric] t1 by (simp add: save_file_def save_loop_skip_prefix[OF p1])
  have second: "save_file validate m2 (pre @ s' # post) = Inr (''dup'', pre @ s' # post)"
    using assms(2) assms(4)[symmetric] t2 by (simp add: save_file_def save_loop_skip_prefix[OF p2])
  have "filter (\<lambda>x. doc_file_id x = k) (docs s) = []"
    using assms(11) by (auto simp: filter_empty_conv)
  then have third: "length (filter (\<lambda>x. doc_file_id x = k) (docs s')) = 1"
    using assms(12) key by simp
  show ?thesis using first second third by simp
qed

theorem duplicate_idempotence_witness:
  "save_file (\<lambda>d. None) example_media [idle_shard size_limit, idle_shard 0, idle_shard 0]
     = Inr (''suc'', [idle_shard size_limit, (idle_shard 0)\<lparr>docs := [example_doc]\<rparr>, idle_shard 0])
   \<and> save_file (\<lambda>d. None)
        (example_media\<lparr>m_file_id := example_descriptor\<lparr>file_reference := [2]\<rparr>,
                        m_file_name := Some ''matrix-copy.mkv''\<rparr>)
        [idle_shard size_limit, (idle_shard 900)\<lparr>docs := [example_doc]\<rparr>, idle_shard 0]
     = Inr (''dup'', [idle_shard size_limit, (idle_shard 900)\<lparr>docs := [example_doc]\<rparr>, idle_shard 0])
   \<and> length (filter (\<lambda>x. doc_file_id x = ''BQADBAAMAQAGFgQ'')
        (docs ((idle_shard 900)\<lparr>docs := [example_doc]\<rparr>))) = 1"
proof -
  let ?m2 = "example_media\<lparr>m_file_id := example_descriptor\<lparr>file_reference := [2]\<rparr>,
                        m_file_name := Some ''matrix-copy.mkv''\<rparr>"
  let ?d2 = "model_fields ''BQADBAAMAQAGFgQ'' ''Ag'' (sub_separators (py_str (m_file_name ?m2))) ?m2"
  have a: "unpack_new_file_id (m_file_id example_media) = Some (''BQADBAAMAQAGFgQ'', ''AQA'')"
    using unpack_example by (simp add: example_media_def)
  have a': "unpack_new_file_id (m_file_id ?m2) = Some (''BQADBAAMAQAGFgQ'', ''Ag'')"
    using unpack_example_again by simp
  have b: "example_doc = model_fields ''BQADBAAMAQAGFgQ'' ''AQA''
             (sub_separators (py_str (m_file_name example_media))) example_media"
    by (simp add: example_fields)
  have b': "?d2 = ?d2" by simp
  have v: "(\<lambda>d::doc. None::exn option) example_doc = None"
    "(\<lambda>d::doc. None::exn option) ?d2 = None" by simp_all
  have p: "\<forall>p \<in> set [idle_shard size_limit].
            skips (\<lambda>d. None) example_doc p \<and> skips (\<lambda>d. None) ?d2 p"
    by (simp add: skips_def try_shard_def idle_shard_def)
  have c: "dbstats (idle_shard 0) = Inr 0" "0 < size_limit" "commit_fault (idle_shard 0) = None"
    "''BQADBAAMAQAGFgQ'' \<notin> set (map doc_file_id (docs (idle_shard 0)))"
    by (simp_all add: idle_shard_def size_limit_def)
  have s': "(idle_shard 900)\<lparr>docs := [example_doc]\<rparr>
      = (idle_shard 0)\<lparr>docs := docs (idle_shard 0) @ [example_doc], dbstats := Inr 900\<rparr>"
    "(900::int) < size_limit"
    by (simp_all add: idle_shard_def size_limit_def)
  show ?thesis
    using duplicate_idempotence[OF a a' b b' v p c s', of "[idle_shard 0]"]
    by (simp add: idle_shard_def)
qed

section \<open>Properties of the search\<close>

text \<open>
  The loop of \<open>get_search_results\<close> in closed form: what it appends to \<open>results\<close>
  and adds to \<open>total_results\<close>.
\<close>

lemma search_loop_eq:
  "search_loop sel max_results lang shards results n =
     (results @ concat (map (\<lambda>s. lang_filter lang (find_newest sel s (max_results * 3))) shards),
      n + sum_list (map (count_documents sel) shards))"
  by (induction shards arbitrary: results n) (simp_all add: add.assoc)

lemma get_search_results_files:
  "fst (get_search_results E query max_results offset lang shards) =
     take max_results (drop offset (sort_reverse generation_key
       (concat (map (\<lambda>s. lang_filter lang
          (find_newest (selects E (name_filter_of E (strip query))) s (max_results * 3))) shards))))"
  by (simp add: get_search_results_def search_loop_eq Let_def)

lemma lang_filter_holds:
  "lang = Some l \<Longrightarrow> l \<noteq> [] \<Longrightarrow> d \<in> set (lang_filter lang xs) \<Longrightarrow>
   py_in l (lower (doc_file_name d))"
  by (simp add: lang_filter_def)

lemma set_sort_reverse: "set (sort_reverse key xs) = set xs"
  by (simp add: sort_reverse_def)

lemma page_subset:
  "set (fst (get_search_results E query max_results offset lang shards))
   \<subseteq> (\<Union>s \<in> set shards. set (lang_filter lang
        (find_newest (selects E (name_filter_of E (strip query))) s (max_results * 3))))"
proof -
  let ?c = "concat (map (\<lambda>s. lang_filter lang
          (find_newest (selects E (name_filter_of E (strip query))) s (max_results * 3))) shards)"
  have "set (fst (get_search_results E query max_results offset lang shards))
      \<subseteq> set (sort_reverse generation_key ?c)"
    unfolding get_search_results_files
    by (meson set_take_subset set_drop_subset subset_trans)
  also have "\<dots> = (\<Union>s \<in> set shards. set (lang_filter lang
        (find_newest (selects E (name_filter_of E (strip query))) s (max_results * 3))))"
    by (simp add: set_sort_reverse)
  finally show ?thesis .
qed

lemma find_newest_selected: "d \<in> set (find_newest sel s n) \<Longrightarrow> sel d"
  by (auto simp: find_newest_def dest: in_set_takeD)

lemma lang_filter_subset: "set (lang_filter lang xs) \<subseteq> set xs"
  by (auto simp: lang_filter_def split: option.splits)

lemmas search_eval =
  get_search_results_def strip_def py_isspace_def raw_pattern_def name_filter_of_def
  dot_engine_def selects_def find_newest_def count_documents_def lang_filter_def
  sort_reverse_def generation_key_def named_doc_def shard_of_def boundary_def gap_def Let_def

subsection \<open>The page\<close>

lemma unpack_second:
  "unpack_new_file_id (m_file_id second_media) = Some (''BQADBAADAQAPFgQ'', ''AQA'')"
  by (simp add: second_media_def unpack_new_file_id_def encode_file_id_def
      encode_file_ref_def pack_iiqq_def le_bytes_def upt_rec drop_bit_eq_div rstrip_eq_def
      b64_char_def b64_alphabet_def)

lemma second_fields:
  "model_fields ''BQADBAADAQAPFgQ'' ''AQA'' (sub_separators (py_str (m_file_name second_media)))
     second_media = second_doc"
  by (simp add: model_fields_def second_media_def second_doc_def sub_separators_def py_str_def
      major_type_def)

lemma save_file_second:
  "save_file validate second_media shards = save_loop validate second_doc shards"
  using unpack_second by (simp add: save_file_def second_fields)

text \<open>
  Claim C2 fails on the code. A first record is saved and lands in the first shard;
  once that shard has reached the ceiling a second record is saved and lands in the
  second shard, so that the second record is the most recent one. A search that matches
  both returns the older record first: the sort key is the generation time of the
  record's \<open>id\<close>, which no record made by \<open>save_file\<close> has, so every key is 0, the
  stable sort changes nothing and the page keeps the order of the shards. The page is not
  the slice of all matches either: claim C5 shows what the limit of
  \<open>3 * max_results\<close> records for each shard does.
\<close>

theorem search_lists_older_shard_first:
  "save_file (\<lambda>d. None) example_media [idle_shard 0, idle_shard 0, idle_shard 0]
     = Inr (''suc'', [(idle_shard 0)\<lparr>docs := [example_doc]\<rparr>, idle_shard 0, idle_shard 0])
   \<and> save_file (\<lambda>d. None) second_media
       [(idle_shard size_limit)\<lparr>docs := [example_doc]\<rparr>, idle_shard 0, idle_shard 0]
     = Inr (''suc'', [(idle_shard size_limit)\<lparr>docs := [example_doc]\<rparr>,
                      (idle_shard 0)\<lparr>docs := [second_doc]\<rparr>, idle_shard 0])
   \<and> get_search_results dot_engine [] 10 0 None
       [(idle_shard size_limit)\<lparr>docs := [example_doc]\<rparr>,
        (idle_shard 0)\<lparr>docs := [second_doc]\<rparr>, idle_shard 0]
     = ([example_doc, second_doc], None, 2)"
proof -
  have 1: "save_file (\<lambda>d. None) example_media [idle_shard 0, idle_shard 0, idle_shard 0]
     = Inr (''suc'', [(idle_shard 0)\<lparr>docs := [example_doc]\<rparr>, idle_shard 0, idle_shard 0])"
    by (simp add: save_file_example try_shard_def commit_def idle_shard_def size_limit_def)
  have 2: "save_file (\<lambda>d. None) second_media
       [(idle_shard size_limit)\<lparr>docs := [example_doc]\<rparr>, idle_shard 0, idle_shard 0]
     = Inr (''suc'', [(idle_shard size_limit)\<lparr>docs := [example_doc]\<rparr>,
                      (idle_shard 0)\<lparr>docs := [second_doc]\<rparr>, idle_shard 0])"
    by (simp add: save_file_second try_shard_def commit_def idle_shard_def size_limit_def)
  have 3: "get_search_results dot_engine [] 10 0 None
       [(idle_shard size_limit)\<lparr>docs := [example_doc]\<rparr>,
        (idle_shard 0)\<lparr>docs := [second_doc]\<rparr>, idle_shard 0]
     = ([example_doc, second_doc], None, 2)"
    by (simp add: search_eval idle_shard_def example_doc_def second_doc_def)
  show ?thesis using 1 2 3 by simp
qed

text \<open>
  Claim C10. The page returned by \<open>get_search_results\<close> never holds more than
  \<open>max_results\<close> records, for every query, offset, page size, language and shards.
\<close>

theorem page_length_bound:
  "length (fst (get_search_results E query max_results offset lang shards)) \<le> max_results"
  by (simp add: get_search_results_files)

subsection \<open>Pagination\<close>

text \<open>
  Claim C5 fails on the code. Four records in one shard match the query, so
  \<open>total_count\<close> is 4; with a page size of 1 the calls at offsets 0, 1 and 2 return the
  three newest records and announce a next page, and the call at offset 3 returns an empty
  page with the no-more-pages value: the pages hold three records, not four. Each call
  fetches the newest \<open>3 * max_results\<close> matches of a shard whatever the offset is.
\<close>

theorem pagination_loses_records:
  "get_search_results dot_engine [] 1 0 None four_files = ([named_doc ''d''], Some 1, 4)
   \<and> get_search_results dot_engine [] 1 1 None four_files = ([named_doc ''c''], Some 2, 4)
   \<and> get_search_results dot_engine [] 1 2 None four_files = ([named_doc ''b''], Some 3, 4)
   \<and> get_search_results dot_engine [] 1 3 None four_files = ([], None, 4)"
  by (simp add: search_eval four_files_def)

subsection \<open>Patterns that do not compile\<close>

text \<open>
  Claim C6, as amended. When the pattern built from the stripped query does not compile,
  neither operation raises; \<open>get_bad_files\<close> returns no record and a count of 0, and
  every record that \<open>get_search_results\<close> returns has a name equal to the stripped
  query: the query string itself becomes the filter value, which selects by equality.
\<close>

theorem compile_failure_fallback:
  assumes "re_compile E (raw_pattern (strip query)) = None"
  shows "get_bad_files E query ftype shards = ([], 0)
       \<and> (\<forall>d \<in> set (fst (get_search_results E query max_results offset lang shards)).
             doc_file_name d = strip query)"
proof -
  have nf: "name_filter_of E (strip query) = Plain (strip query)"
    using assms by (simp add: name_filter_of_def)
  have bad: "get_bad_files E query ftype shards = ([], 0)"
    using assms by (simp add: get_bad_files_def)
  have "doc_file_name d = strip query"
    if "d \<in> set (fst (get_search_results E query max_results offset lang shards))" for d
  proof -
    from that obtain s where "d \<in> set (lang_filter lang
        (find_newest (selects E (name_filter_of E (strip query))) s (max_results * 3)))"
      using page_subset by blast
    then have "selects E (Plain (strip query)) d"
      using lang_filter_subset find_newest_selected nf by (metis subsetD)
    then show ?thesis by (simp add: selects_def)
  qed
  then show ?thesis using bad by blast
qed

theorem compile_failure_fallback_witness:
  "re_compile dot_engine (raw_pattern (strip ''('')) = None
   \<and> get_bad_files dot_engine ''('' None [shard_of [named_doc ''('', named_doc ''a(b'']] = ([], 0)
   \<and> fst (get_search_results dot_engine ''('' 10 0 None
            [shard_of [named_doc ''('', named_doc ''a(b'']]) = [named_doc ''('']
   \<and> doc_file_name (named_doc ''('') = strip ''(''"
proof -
  have h: "re_compile dot_engine (raw_pattern (strip ''('')) = None"
    by (simp add: search_eval)
  have v: "fst (get_search_results dot_engine ''('' 10 0 None
            [shard_of [named_doc ''('', named_doc ''a(b'']]) = [named_doc ''('']"
    by (simp add: search_eval)
  show ?thesis
    using compile_failure_fallback[OF h, of None "[shard_of [named_doc ''('', named_doc ''a(b'']]" 10 0 None] h v
    by simp
qed

text \<open>
  The fallback is not a substring match: for the query \<open>(\<close>, whose pattern does not
  compile, \<open>get_bad_files\<close> returns nothing although a stored name contains the query
  text.
\<close>

theorem compile_failure_counterexample:
  "re_compile dot_engine (raw_pattern (strip ''('')) = None
   \<and> py_in ''('' (doc_file_name (named_doc ''a(b''))
   \<and> get_bad_files dot_engine ''('' None [shard_of [named_doc ''a(b''], shard_of [], shard_of []]
       = ([], 0)"
  by (simp add: search_eval get_bad_files_def)

subsection \<open>The language filter\<close>

text \<open>
  Claim C8, as amended. With a language filter set, every record of the returned page
  has the filter string, exactly as it was passed, inside its lower-cased name. The
  argument itself is not lower-cased.
\<close>

theorem language_filter_is_verbatim:
  assumes "lang = Some l" and "l \<noteq> []"
  shows "\<forall>d \<in> set (fst (get_search_results E query max_results offset lang shards)).
           py_in l (lower (doc_file_name d))"
proof
  fix d assume "d \<in> set (fst (get_search_results E query max_results offset lang shards))"
  then obtain s where "d \<in> set (lang_filter lang
        (find_newest (selects E (name_filter_of E (strip query))) s (max_results * 3)))"
    using page_subset by blast
  then show "py_in l (lower (doc_file_name d))"
    using assms by (rule lang_filter_holds[rotated 2])
qed

theorem language_filter_is_verbatim_witness:
  "fst (get_search_results dot_engine [] 10 0 (Some ''english'')
          [shard_of [named_doc ''Movie English'', named_doc ''Film Hindi'']])
     = [named_doc ''Movie English'']
   \<and> py_in ''english'' (lower (doc_file_name (named_doc ''Movie English'')))"
proof -
  have h: "Some ''english'' = Some ''english''" "''english'' \<noteq> []" by simp_all
  have v: "fst (get_search_results dot_engine [] 10 0 (Some ''english'')
            [shard_of [named_doc ''Movie English'', named_doc ''Film Hindi'']])
       = [named_doc ''Movie English'']"
    by (simp add: search_eval lower_def lower_char_def)
  show ?thesis
    using language_filter_is_verbatim[OF h, of dot_engine "[]" 10 0
        "[shard_of [named_doc ''Movie English'', named_doc ''Film Hindi'']]"] v
    by simp
qed

text \<open>
  The casing of the argument matters: the filter \<open>English\<close> lets no record pass
  where \<open>english\<close> lets the record named \<open>Movie English\<close> pass.
\<close>

theorem language_casing_counterexample:
  "fst (get_search_results dot_engine [] 10 0 (Some ''English'')
          [shard_of [named_doc ''Movie English''], shard_of [], shard_of []]) = []
   \<and> fst (get_search_results dot_engine [] 10 0 (Some ''english'')
          [shard_of [named_doc ''Movie English''], shard_of [], shard_of []])
       = [named_doc ''Movie English'']"
  by (simp add: search_eval lower_def lower_char_def)

end
